theory Spec2Isabelle
  imports Main
begin

section \<open>Values, errors and the pattern syntax tree\<close>

text \<open>
  The exceptions the code of \<^verbatim>\<open>smarts_graph.py\<close> can raise, as values. A result is
  \<open>error + 'a\<close>, with \<open>Inl\<close> for a raised exception.
\<close>

datatype error =
    FoyerError
  | TypeError
  | NotImplementedError
  | AttributeError
  | IndexError
  | KeyError
  | ValueError
  | StopIteration
  | RuntimeError

text \<open>
  What \<^verbatim>\<open>_atom_expr_matches\<close> and \<^verbatim>\<open>_atom_id_matches\<close> return: a Python boolean, or
  \<^verbatim>\<open>None\<close> when a function body ends without a \<^verbatim>\<open>return\<close>. \<open>truthy\<close> is
  Python's truth value, which \<^verbatim>\<open>not\<close>, \<^verbatim>\<open>and\<close>, \<^verbatim>\<open>or\<close> and the caller's
  \<^verbatim>\<open>if\<close> read.
\<close>

datatype pyval = PyBool bool | PyNone

fun truthy :: "pyval \<Rightarrow> bool" where
  "truthy (PyBool b) = b"
| "truthy PyNone = False"

text \<open>
  A node of the parsed pattern: a tree with a head (its kind) and a tail (its children
  in order), or a token, the text the parser read. A node is identified by its path from
  the root (the positions of the children taken), which stands for Python's \<^verbatim>\<open>id\<close> of
  the node object: two occurrences of the same text are two nodes.
\<close>

datatype ast = Node string "ast list" | Tok string

type_synonym node_id = "nat list"

section \<open>Molecule atoms\<close>

record element =
  atomic_number :: int
  name :: string

text \<open>
  An atom object. \<open>cycles\<close>, \<open>whitelist\<close> and \<open>blacklist\<close> are the attributes
  that \<^verbatim>\<open>_prepare_atoms\<close> attaches: \<open>None\<close> while the attribute is absent. Atoms
  inside a cycle and bond partners are references into the store of atom objects.
\<close>

record atom =
  index :: int
  element :: element
  bond_partners :: "nat list"
  cycles :: "nat list list option"
  whitelist :: "string list option"
  blacklist :: "string list option"

section \<open>The atom constraint evaluator\<close>

text \<open>
  \<^verbatim>\<open>int(token)\<close> on the text of a number token. The tokens the evaluator converts are
  digit strings; on any other text the model reports \<open>ValueError\<close> (Python's \<^verbatim>\<open>int\<close>
  accepts a sign, blanks and underscores besides).
\<close>

definition is_digit :: "char \<Rightarrow> bool" where
  "is_digit c = (c \<in> set ''0123456789'')"

definition py_int :: "string \<Rightarrow> error + int" where
  "py_int s =
     (if s \<noteq> [] \<and> list_all is_digit s
      then Inr (foldl (\<lambda>n c. 10 * n + (int (of_char c) - 48)) 0 s)
      else Inl ValueError)"

text \<open>
  \<^verbatim>\<open>node.tail[0]\<close> read as text: \<open>IndexError\<close> on an empty tail. The parser puts a
  token there. For a tree in that place the model reports \<open>TypeError\<close>, which is what
  \<^verbatim>\<open>int\<close> and \<^verbatim>\<open>list\<close> raise on it; what \<^verbatim>\<open>str\<close> and slicing make of a tree is
  the parser library's matter and is not modelled further.
\<close>

fun tail0_text :: "ast list \<Rightarrow> error + string" where
  "tail0_text [] = Inl IndexError"
| "tail0_text (Tok s # _) = Inr s"
| "tail0_text (Node _ _ # _) = Inl TypeError"

definition tail0_int :: "ast list \<Rightarrow> error + int" where
  "tail0_int ts = (case tail0_text ts of Inl e \<Rightarrow> Inl e | Inr s \<Rightarrow> py_int s)"

definition startswith_underscore :: "string \<Rightarrow> bool" where
  "startswith_underscore s = (case s of [] \<Rightarrow> False | c # _ \<Rightarrow> c = CHR ''_'')"

text \<open>
  \<^verbatim>\<open>_atom_id_matches(atom_id, atom)\<close>, lines 110-138. \<open>AtomicNum\<close> is the symbol table
  \<^verbatim>\<open>parmed.periodic_table.AtomicNum\<close>, a parameter here. The chain of \<^verbatim>\<open>elif\<close> has no
  final \<^verbatim>\<open>else\<close>: on any other head the body ends and Python returns \<^verbatim>\<open>None\<close>.
\<close>

fun atom_id_matches :: "(string \<rightharpoonup> int) \<Rightarrow> ast \<Rightarrow> atom \<Rightarrow> error + pyval" where
  "atom_id_matches AtomicNum (Tok s) atom = Inl AttributeError"
| "atom_id_matches AtomicNum (Node h ts) atom =
     (let atomic_num = atomic_number (element atom) in
      if h = ''atomic_num'' then
        (case tail0_int ts of Inl e \<Rightarrow> Inl e
         | Inr n \<Rightarrow> Inr (PyBool (atomic_num = n)))
      else if h = ''atom_symbol'' then
        (case tail0_text ts of Inl e \<Rightarrow> Inl e
         | Inr s \<Rightarrow>
             if s = ''*'' then Inr (PyBool True)
             else if startswith_underscore s then Inr (PyBool (name (element atom) = s))
             else (case AtomicNum s of None \<Rightarrow> Inl KeyError
                   | Some n \<Rightarrow> Inr (PyBool (atomic_num = n))))
      else if h = ''has_label'' then
        (case tail0_text ts of Inl e \<Rightarrow> Inl e
         | Inr s \<Rightarrow>
             (case whitelist atom of None \<Rightarrow> Inl AttributeError
              | Some wl \<Rightarrow> Inr (PyBool (drop 1 s \<in> set wl))))
      else if h = ''neighbor_count'' then
        (case tail0_int ts of Inl e \<Rightarrow> Inl e
         | Inr n \<Rightarrow> Inr (PyBool (int (length (bond_partners atom)) = n)))
      else if h = ''ring_size'' then
        (case tail0_int ts of Inl e \<Rightarrow> Inl e
         | Inr cycle_len \<Rightarrow>
             (case cycles atom of None \<Rightarrow> Inl AttributeError
              | Some cs \<Rightarrow> Inr (PyBool (list_ex (\<lambda>cycle. int (length cycle) = cycle_len) cs))))
      else if h = ''ring_count'' then
        (case cycles atom of None \<Rightarrow> Inl AttributeError
         | Some cs \<Rightarrow>
             (case tail0_int ts of Inl e \<Rightarrow> Inl e
              | Inr n \<Rightarrow> Inr (PyBool (int (length cs) = n))))
      else if h = ''matches_string'' then Inl NotImplementedError
      else Inr PyNone)"

text \<open>
  \<^verbatim>\<open>_atom_expr_matches(atom_expr, atom)\<close>, lines 93-108. Python's \<^verbatim>\<open>a and b\<close> is
  \<open>a\<close> when \<open>a\<close> is falsy and \<open>b\<close> otherwise, \<^verbatim>\<open>a or b\<close> is \<open>a\<close> when \<open>a\<close> is
  truthy and \<open>b\<close> otherwise; the second child is evaluated only when the first does not
  decide. \<^verbatim>\<open>tail[0]\<close> and \<^verbatim>\<open>tail[1]\<close> raise \<open>IndexError\<close> on a short tail.
\<close>

fun atom_expr_matches :: "(string \<rightharpoonup> int) \<Rightarrow> ast \<Rightarrow> atom \<Rightarrow> error + pyval" where
  "atom_expr_matches AtomicNum (Tok s) atom = Inl AttributeError"
| "atom_expr_matches AtomicNum (Node h []) atom =
     (if h = ''not_expression'' then Inl IndexError
      else if h = ''and_expression'' \<or> h = ''weak_and_expression'' then Inl IndexError
      else if h = ''or_expression'' then Inl IndexError
      else if h = ''atom_id'' then Inl IndexError
      else if h = ''atom_symbol'' then atom_id_matches AtomicNum (Node h []) atom
      else Inl TypeError)"
| "atom_expr_matches AtomicNum (Node h [c0]) atom =
     (if h = ''not_expression'' then
        (case atom_expr_matches AtomicNum c0 atom of Inl e \<Rightarrow> Inl e
         | Inr v \<Rightarrow> Inr (PyBool (\<not> truthy v)))
      else if h = ''and_expression'' \<or> h = ''weak_and_expression'' then
        (case atom_expr_matches AtomicNum c0 atom of Inl e \<Rightarrow> Inl e
         | Inr v0 \<Rightarrow> if truthy v0 then Inl IndexError else Inr v0)
      else if h = ''or_expression'' then
        (case atom_expr_matches AtomicNum c0 atom of Inl e \<Rightarrow> Inl e
         | Inr v0 \<Rightarrow> if truthy v0 then Inr v0 else Inl IndexError)
      else if h = ''atom_id'' then atom_id_matches AtomicNum c0 atom
      else if h = ''atom_symbol'' then atom_id_matches AtomicNum (Node h [c0]) atom
      else Inl TypeError)"
| "atom_expr_matches AtomicNum (Node h (c0 # c1 # cs)) atom =
     (if h = ''not_expression'' then
        (case atom_expr_matches AtomicNum c0 atom of Inl e \<Rightarrow> Inl e
         | Inr v \<Rightarrow> Inr (PyBool (\<not> truthy v)))
      else if h = ''and_expression'' \<or> h = ''weak_and_expression'' then
        (case atom_expr_matches AtomicNum c0 atom of Inl e \<Rightarrow> Inl e
         | Inr v0 \<Rightarrow> if truthy v0 then atom_expr_matches AtomicNum c1 atom else Inr v0)
      else if h = ''or_expression'' then
        (case atom_expr_matches AtomicNum c0 atom of Inl e \<Rightarrow> Inl e
         | Inr v0 \<Rightarrow> if truthy v0 then Inr v0 else atom_expr_matches AtomicNum c1 atom)
      else if h = ''atom_id'' then atom_id_matches AtomicNum c0 atom
      else if h = ''atom_symbol'' then atom_id_matches AtomicNum (Node h (c0 # c1 # cs)) atom
      else Inl TypeError)"

section \<open>Graphs\<close>

text \<open>
  A \<^verbatim>\<open>networkx.Graph\<close> as the code uses it: the nodes in insertion order (the class sets
  \<^verbatim>\<open>node_dict_factory = OrderedDict\<close>), each with its \<^verbatim>\<open>'atom'\<close> attribute (\<open>None\<close>
  for a node that has none), and the undirected edges, at most one between two nodes.
  \<^verbatim>\<open>add_node\<close> on a node already there rewrites its attribute and keeps its place;
  \<^verbatim>\<open>add_edge\<close> first adds the end points that are missing, without attribute.
\<close>

record ('k, 'a) graph =
  nodes :: "('k \<times> 'a option) list"
  edges :: "('k \<times> 'k) list"

definition empty_graph :: "('k, 'a) graph" where
  "empty_graph = \<lparr>nodes = [], edges = []\<rparr>"

definition has_node :: "('k, 'a) graph \<Rightarrow> 'k \<Rightarrow> bool" where
  "has_node g k = (k \<in> set (map fst (nodes g)))"

definition has_edge :: "('k, 'a) graph \<Rightarrow> 'k \<Rightarrow> 'k \<Rightarrow> bool" where
  "has_edge g u v = ((u, v) \<in> set (edges g) \<or> (v, u) \<in> set (edges g))"

definition node_attr :: "('k, 'a) graph \<Rightarrow> 'k \<Rightarrow> 'a option" where
  "node_attr g k = (case map_of (nodes g) k of None \<Rightarrow> None | Some x \<Rightarrow> x)"

definition add_node :: "('k, 'a) graph \<Rightarrow> 'k \<Rightarrow> 'a \<Rightarrow> ('k, 'a) graph" where
  "add_node g k a =
     (if has_node g k
      then g\<lparr>nodes := map (\<lambda>(k', x). if k' = k then (k', Some a) else (k', x)) (nodes g)\<rparr>
      else g\<lparr>nodes := nodes g @ [(k, Some a)]\<rparr>)"

definition touch_node :: "('k, 'a) graph \<Rightarrow> 'k \<Rightarrow> ('k, 'a) graph" where
  "touch_node g k = (if has_node g k then g else g\<lparr>nodes := nodes g @ [(k, None)]\<rparr>)"

definition add_edge :: "('k, 'a) graph \<Rightarrow> 'k \<Rightarrow> 'k \<Rightarrow> ('k, 'a) graph" where
  "add_edge g u v =
     (let g2 = touch_node (touch_node g u) v
      in if has_edge g2 u v then g2 else g2\<lparr>edges := edges g2 @ [(u, v)]\<rparr>)"

section \<open>The pattern graph builder\<close>

text \<open>
  Modelled from the spec: \<^verbatim>\<open>ast.select(kind)\<close> is the parser library's selector, not part
  of this repository. The spec has it collect all nodes of the kind in a canonical
  traversal; here that is document order (a node before its children, children left to
  right), each node with its identity.
\<close>

fun select :: "string \<Rightarrow> node_id \<Rightarrow> ast \<Rightarrow> (node_id \<times> ast) list"
  and select_kids :: "string \<Rightarrow> node_id \<Rightarrow> nat \<Rightarrow> ast list \<Rightarrow> (node_id \<times> ast) list" where
  "select k p (Tok s) = []"
| "select k p (Node h ts) =
     (if h = k then [(p, Node h ts)] else []) @ select_kids k p 0 ts"
| "select_kids k p i [] = []"
| "select_kids k p i (t # ts) = select k (p @ [i]) t @ select_kids k p (Suc i) ts"

text \<open>\<^verbatim>\<open>_add_nodes\<close>, lines 48-51: one node per \<^verbatim>\<open>atom\<close> node, in the order selected.\<close>

definition add_nodes :: "(node_id, ast) graph \<Rightarrow> ast \<Rightarrow> (node_id, ast) graph" where
  "add_nodes g t = foldl (\<lambda>g (p, n). add_node g p n) g (select ''atom'' [] t)"

text \<open>
  \<^verbatim>\<open>_add_edges(ast_node, trunk)\<close>, lines 53-69. \<open>add_edges_loop g p h i kids trunk\<close> is the
  \<^verbatim>\<open>for\<close> loop from the \<open>i\<close>-th child on: \<open>p\<close> and \<open>h\<close> are the identity and the head of
  \<^verbatim>\<open>ast_node\<close>, the parent of every child visited, \<open>kids\<close> the children not yet visited.
  The child at position \<open>i\<close> is the first kid when \<open>i = 0\<close> and the last kid when no
  child follows; its next kid is the child after it. Reading \<^verbatim>\<open>.head\<close> of a token
  raises \<open>AttributeError\<close>. The assignment to \<^verbatim>\<open>trunk\<close> is local to one call.
\<close>

fun add_edges_loop ::
  "(node_id, ast) graph \<Rightarrow> node_id \<Rightarrow> string \<Rightarrow> nat \<Rightarrow> ast list \<Rightarrow> node_id option
     \<Rightarrow> error + (node_id, ast) graph" where
  "add_edges_loop g p h i [] trunk = Inr g"
| "add_edges_loop g p h i (Tok s # rest) trunk = Inl AttributeError"
| "add_edges_loop g p h i (Node k kts # rest) trunk =
     (if k = ''atom'' then
        (case (if i = 0 \<and> h = ''branch''
               then (case trunk of None \<Rightarrow> Inl FoyerError
                     | Some t \<Rightarrow> Inr (add_edge g (p @ [i]) t))
               else Inr g) of
           Inl e \<Rightarrow> Inl e
         | Inr g1 \<Rightarrow>
             (case rest of
                [] \<Rightarrow> Inr g1
              | Tok s # _ \<Rightarrow> Inl AttributeError
              | Node nk nts # _ \<Rightarrow>
                  if nk = ''atom''
                    then add_edges_loop (add_edge g1 (p @ [i]) (p @ [Suc i])) p h (Suc i) rest trunk
                  else if nk = ''branch''
                    then add_edges_loop g1 p h (Suc i) rest (Some (p @ [i]))
                  else add_edges_loop g1 p h (Suc i) rest trunk))
      else if k = ''branch'' then
        (case add_edges_loop g (p @ [i]) k 0 kts trunk of
           Inl e \<Rightarrow> Inl e
         | Inr g1 \<Rightarrow> add_edges_loop g1 p h (Suc i) rest trunk)
      else add_edges_loop g p h (Suc i) rest trunk)"

fun add_edges ::
  "(node_id, ast) graph \<Rightarrow> node_id \<Rightarrow> ast \<Rightarrow> node_id option \<Rightarrow> error + (node_id, ast) graph" where
  "add_edges g p (Tok s) trunk = Inl AttributeError"
| "add_edges g p (Node h ts) trunk = add_edges_loop g p h 0 ts trunk"

text \<open>
  \<^verbatim>\<open>_add_label_edges\<close>, lines 71-86. \<open>label_digits\<close> is the \<^verbatim>\<open>defaultdict(list)\<close>, in
  insertion order: for each character of each label's text, the label's parent is
  appended to the character's list. The root has no parent (\<^verbatim>\<open>parent\<close> is \<^verbatim>\<open>None\<close>
  there, and calling it raises \<open>TypeError\<close>). The last loop unpacks every list into
  \<^verbatim>\<open>(atom1, atom2)\<close>, which raises \<open>ValueError\<close> unless the list has exactly two entries.
\<close>

fun append_label ::
  "char \<Rightarrow> node_id \<Rightarrow> (char \<times> node_id list) list \<Rightarrow> (char \<times> node_id list) list" where
  "append_label d p [] = [(d, [p])]"
| "append_label d p ((d', ps) # rest) =
     (if d' = d then (d', ps @ [p]) # rest else (d', ps) # append_label d p rest)"

fun label_digits ::
  "(node_id \<times> ast) list \<Rightarrow> (char \<times> node_id list) list
     \<Rightarrow> error + (char \<times> node_id list) list" where
  "label_digits [] ld = Inr ld"
| "label_digits ((p, Tok s) # rest) ld = Inl AttributeError"
| "label_digits ((p, Node h ts) # rest) ld =
     (case tail0_text ts of
        Inl e \<Rightarrow> Inl e
      | Inr digits \<Rightarrow>
          if digits = [] then label_digits rest ld
          else if p = [] then Inl TypeError
          else label_digits rest (foldl (\<lambda>ld digit. append_label digit (butlast p) ld) ld digits))"

fun add_ring_edges ::
  "(node_id, ast) graph \<Rightarrow> (char \<times> node_id list) list \<Rightarrow> error + (node_id, ast) graph" where
  "add_ring_edges g [] = Inr g"
| "add_ring_edges g ((label, [atom1, atom2]) # rest) = add_ring_edges (add_edge g atom1 atom2) rest"
| "add_ring_edges g ((label, _) # rest) = Inl ValueError"

definition add_label_edges :: "(node_id, ast) graph \<Rightarrow> ast \<Rightarrow> error + (node_id, ast) graph" where
  "add_label_edges g t =
     (let labels = select ''atom_label'' [] t
      in if labels = [] then Inr g
         else (case label_digits labels [] of
                 Inl e \<Rightarrow> Inl e
               | Inr ld \<Rightarrow> add_ring_edges g ld))"

text \<open>
  \<^verbatim>\<open>SMARTSGraph.__init__\<close>, lines 44-46, on the tree the parser returned: the pattern
  graph, or the exception that ends the construction.
\<close>

definition SMARTSGraph :: "ast \<Rightarrow> error + (node_id, ast) graph" where
  "SMARTSGraph t =
     (case t of
        Tok s \<Rightarrow> Inl AttributeError
      | Node h ts \<Rightarrow>
          (case add_edges (add_nodes empty_graph t) [] t None of
             Inl e \<Rightarrow> Inl e
           | Inr g \<Rightarrow> add_label_edges g t))"

section \<open>Topology preparation\<close>

text \<open>
  A topology: the store of atom objects (every reference denotes an object), the
  references \<^verbatim>\<open>topology.atoms()\<close> iterates over, in order, and the bonds, each a pair
  of references. The code mutates the atom objects; the model returns the store updated.
\<close>

record topology =
  store :: "nat \<Rightarrow> atom"
  atoms :: "nat list"
  bonds :: "(nat \<times> nat) list"

text \<open>
  The two loops at the end of \<^verbatim>\<open>_prepare_atoms\<close>, lines 187-194.
  \<^verbatim>\<open>atom.cycles.add(tuple(cycle))\<close> reads the attribute \<^verbatim>\<open>cycles\<close> (\<open>AttributeError\<close> on
  an atom that has none) and adds the cycle to the set unless it is there.
\<close>

definition init_atom :: "atom \<Rightarrow> atom" where
  "init_atom a = a\<lparr>cycles := Some [], whitelist := Some [], blacklist := Some []\<rparr>"

fun add_cycle :: "nat list \<Rightarrow> nat list \<Rightarrow> (nat \<Rightarrow> atom) \<Rightarrow> (nat \<Rightarrow> atom) \<times> error option" where
  "add_cycle cycle [] s = (s, None)"
| "add_cycle cycle (r # rs) s =
     (case cycles (s r) of
        None \<Rightarrow> (s, Some AttributeError)
      | Some cs \<Rightarrow> add_cycle cycle rs (s(r := (s r)\<lparr>cycles := Some (List.insert cycle cs)\<rparr>)))"

fun add_cycles :: "nat list list \<Rightarrow> (nat \<Rightarrow> atom) \<Rightarrow> (nat \<Rightarrow> atom) \<times> error option" where
  "add_cycles [] s = (s, None)"
| "add_cycles (cycle # rest) s =
     (case add_cycle cycle cycle s of
        (s', Some e) \<Rightarrow> (s', Some e)
      | (s', None) \<Rightarrow> add_cycles rest s')"

text \<open>
  \<^verbatim>\<open>_prepare_atoms(topology)\<close>, lines 177-194. \<open>cycle_basis\<close> is \<^verbatim>\<open>networkx.cycle_basis\<close>
  on the graph of the topology's atoms and bonds, a parameter here. \<^verbatim>\<open>next\<close> on the
  iterator of an empty atom list raises \<open>StopIteration\<close>;
  \<^verbatim>\<open>hasattr(atom1, 'whitelist')\<close> is read on the first atom only. The result is the
  topology after the call and the exception that ended it, if one did.
\<close>

definition prepare_atoms ::
  "(nat list \<Rightarrow> (nat \<times> nat) list \<Rightarrow> nat list list) \<Rightarrow> topology \<Rightarrow> topology \<times> error option" where
  "prepare_atoms cycle_basis topo =
     (case atoms topo of
        [] \<Rightarrow> (topo, Some StopIteration)
      | atom1 # _ \<Rightarrow>
          if whitelist (store topo atom1) \<noteq> None then (topo, None)
          else
            (let cs = cycle_basis (atoms topo) (bonds topo);
                 s1 = foldl (\<lambda>s r. s(r := init_atom (s r))) (store topo) (atoms topo);
                 (s2, err) = add_cycles cs s1
             in (topo\<lparr>store := s2\<rparr>, err)))"

section \<open>The pattern matcher\<close>

text \<open>
  \<^verbatim>\<open>_node_match(host, pattern)\<close>, lines 88-91, on the attribute dictionaries of a molecule
  node and of a pattern node: a missing \<^verbatim>\<open>'atom'\<close> key raises \<open>KeyError\<close>. The molecule
  node holds a reference to its atom object, read in the store.
\<close>

fun node_match ::
  "(string \<rightharpoonup> int) \<Rightarrow> (nat \<Rightarrow> atom) \<Rightarrow> nat option \<Rightarrow> ast option \<Rightarrow> error + pyval" where
  "node_match AtomicNum s host None = Inl KeyError"
| "node_match AtomicNum s host (Some (Tok t)) = Inl AttributeError"
| "node_match AtomicNum s host (Some (Node h [])) = Inl IndexError"
| "node_match AtomicNum s None (Some (Node h (atom_expr # _))) = Inl KeyError"
| "node_match AtomicNum s (Some r) (Some (Node h (atom_expr # _))) =
     atom_expr_matches AtomicNum atom_expr (s r)"

text \<open>
  The molecule graph of \<^verbatim>\<open>find_matches\<close>, lines 158-162: a node per atom, keyed by
  \<^verbatim>\<open>a.index\<close>, and an edge per bond between the indices of its atoms.
\<close>

definition molecule_graph :: "topology \<Rightarrow> (int, nat) graph" where
  "molecule_graph topo =
     foldl (\<lambda>g (a1, a2). add_edge g (index (store topo a1)) (index (store topo a2)))
       (foldl (\<lambda>g a. add_node g (index (store topo a)) a) empty_graph (atoms topo))
       (bonds topo)"

text \<open>
  What a generator does when it is drained: the values it yields, then the exception that
  ends it, or \<open>None\<close> when it ends as an exhausted iterator does.
\<close>

datatype 'a gen = Gen (yielded: "'a list") (raised: "error option")

text \<open>
  The loop of \<^verbatim>\<open>find_matches\<close>, lines 169-174, over the mappings the matcher produces
  (each a dictionary from molecule node to pattern node, as the list of its items) and
  the way the matcher's iterator ends. The dictionary comprehension inverts the mapping,
  a later item overwriting an earlier one with the same pattern node;
  \<^verbatim>\<open>mapping[first_atom]\<close> raises \<open>KeyError\<close> when the root is not mapped. The
  \<^verbatim>\<open>for\<close> statement takes a \<open>StopIteration\<close> of the iterator as the end of the loop;
  any other exception of the iterator leaves the loop as it is.
\<close>

fun match_loop ::
  "node_id \<Rightarrow> int set \<Rightarrow> (int \<times> node_id) list list \<Rightarrow> error option \<Rightarrow> int gen" where
  "match_loop first_atom matched_atoms [] fin =
     Gen [] (if fin = Some StopIteration then None else fin)"
| "match_loop first_atom matched_atoms (mapping # rest) fin =
     (case map_of (rev (map (\<lambda>(atom_id, nid). (nid, atom_id)) mapping)) first_atom of
        None \<Rightarrow> Gen [] (Some KeyError)
      | Some atom_index \<Rightarrow>
          if atom_index \<notin> matched_atoms
          then (case match_loop first_atom (insert atom_index matched_atoms) rest fin of
                  Gen ys e \<Rightarrow> Gen (atom_index # ys) e)
          else match_loop first_atom matched_atoms rest fin)"

text \<open>
  The body of the generator \<^verbatim>\<open>find_matches(topology)\<close>, lines 140-174, run to its end
  by a caller who leaves the atoms alone meanwhile. \<open>gm\<close> is
  \<^verbatim>\<open>GraphMatcher(g, self, node_match).subgraph_isomorphisms_iter()\<close> of networkx, a
  parameter here: from the molecule graph, the pattern graph and the node predicate, the
  mappings it yields and how it ends. A \<^verbatim>\<open>return\<close> in a generator ends it; the value
  returned is not seen. The result is what the body yields, the exception that leaves
  the body (\<open>None\<close> when it returns), and the topology after the call.
\<close>

type_synonym matcher =
  "(int, nat) graph \<Rightarrow> (node_id, ast) graph \<Rightarrow> (nat option \<Rightarrow> ast option \<Rightarrow> error + pyval)
     \<Rightarrow> (int \<times> node_id) list list \<times> error option"

definition find_matches_body ::
  "(string \<rightharpoonup> int) \<Rightarrow> (nat list \<Rightarrow> (nat \<times> nat) list \<Rightarrow> nat list list) \<Rightarrow> matcher
     \<Rightarrow> (node_id, ast) graph \<Rightarrow> topology option \<Rightarrow> int gen \<times> topology option" where
  "find_matches_body AtomicNum cycle_basis gm self topology =
     (case topology of
        None \<Rightarrow> (Gen [] None, None)
      | Some topo \<Rightarrow>
          (case prepare_atoms cycle_basis topo of
             (topo', Some e) \<Rightarrow> (Gen [] (Some e), Some topo')
           | (topo', None) \<Rightarrow>
               (let g = molecule_graph topo';
                    (mappings, fin) = gm g self (node_match AtomicNum (store topo'))
                in case nodes self of
                     [] \<Rightarrow> (Gen [] (Some StopIteration), Some topo')
                   | (first_atom, _) # _ \<Rightarrow>
                       (match_loop first_atom {} mappings fin, Some topo'))))"

text \<open>
  What the consumer of a generator gets when an exception leaves the generator's body.
  A \<open>StopIteration\<close> is the signal of an exhausted iterator: unless the interpreter
  applies PEP 479, the consumer takes it as the end of the sequence, and nothing is
  reported. Under PEP 479 the interpreter replaces it by \<open>RuntimeError\<close>. Every other
  exception reaches the consumer as it is. \<open>generator_stop\<close> says whether PEP 479
  applies: the file does not import \<^verbatim>\<open>generator_stop\<close> from \<^verbatim>\<open>__future__\<close>, so it
  does not on Python 3.3 to 3.6 and it does from Python 3.7 on.
\<close>

definition leaves_generator :: "bool \<Rightarrow> error option \<Rightarrow> error option" where
  "leaves_generator generator_stop e =
     (if e = Some StopIteration
      then (if generator_stop then Some RuntimeError else None)
      else e)"

text \<open>
  \<^verbatim>\<open>find_matches(topology)\<close> as its consumer sees it: the atom indices yielded, the
  exception reported (\<open>None\<close> when the sequence simply ends), and the topology after
  the call.
\<close>

definition find_matches ::
  "bool \<Rightarrow> (string \<rightharpoonup> int) \<Rightarrow> (nat list \<Rightarrow> (nat \<times> nat) list \<Rightarrow> nat list list) \<Rightarrow> matcher
     \<Rightarrow> (node_id, ast) graph \<Rightarrow> topology option \<Rightarrow> int gen \<times> topology option" where
  "find_matches generator_stop AtomicNum cycle_basis gm self topology =
     (case find_matches_body AtomicNum cycle_basis gm self topology of
        (Gen ys e, topology') \<Rightarrow> (Gen ys (leaves_generator generator_stop e), topology'))"

section \<open>The vocabulary of the statements\<close>

text \<open>
  The constraint expressions the evaluator supports, written after the specification:
  a negation over its child, a conjunction (strong or weak) or a disjunction over its
  two children, and the two kinds of leaf, an \<^verbatim>\<open>atom_id\<close> node over a leaf predicate
  and a bare \<^verbatim>\<open>atom_symbol\<close>. \<open>leaves\<close> lists the nodes handed to the leaf predicate
  evaluator, and \<open>bool_algebra L\<close> is the truth value of the expression when \<open>L\<close> gives
  the truth value of every leaf.
\<close>

fun expr_tree :: "ast \<Rightarrow> bool" where
  "expr_tree (Tok s) = False"
| "expr_tree (Node h []) = (h = ''atom_symbol'')"
| "expr_tree (Node h [c0]) =
     (if h = ''not_expression'' then expr_tree c0
      else h = ''atom_id'' \<or> h = ''atom_symbol'')"
| "expr_tree (Node h (c0 # c1 # cs)) =
     (if h = ''not_expression'' then expr_tree c0
      else if h = ''and_expression'' \<or> h = ''weak_and_expression'' \<or> h = ''or_expression''
        then expr_tree c0 \<and> expr_tree c1
      else h = ''atom_id'' \<or> h = ''atom_symbol'')"

fun leaves :: "ast \<Rightarrow> ast list" where
  "leaves (Tok s) = []"
| "leaves (Node h []) = (if h = ''atom_symbol'' then [Node h []] else [])"
| "leaves (Node h [c0]) =
     (if h = ''not_expression'' then leaves c0
      else if h = ''atom_id'' then [c0]
      else if h = ''atom_symbol'' then [Node h [c0]]
      else [])"
| "leaves (Node h (c0 # c1 # cs)) =
     (if h = ''not_expression'' then leaves c0
      else if h = ''and_expression'' \<or> h = ''weak_and_expression'' \<or> h = ''or_expression''
        then leaves c0 @ leaves c1
      else if h = ''atom_id'' then [c0]
      else if h = ''atom_symbol'' then [Node h (c0 # c1 # cs)]
      else [])"

fun bool_algebra :: "(ast \<Rightarrow> bool) \<Rightarrow> ast \<Rightarrow> bool" where
  "bool_algebra L (Tok s) = False"
| "bool_algebra L (Node h []) = L (Node h [])"
| "bool_algebra L (Node h [c0]) =
     (if h = ''not_expression'' then \<not> bool_algebra L c0
      else if h = ''atom_id'' then L c0
      else L (Node h [c0]))"
| "bool_algebra L (Node h (c0 # c1 # cs)) =
     (if h = ''not_expression'' then \<not> bool_algebra L c0
      else if h = ''and_expression'' \<or> h = ''weak_and_expression''
        then bool_algebra L c0 \<and> bool_algebra L c1
      else if h = ''or_expression'' then bool_algebra L c0 \<or> bool_algebra L c1
      else if h = ''atom_id'' then L c0
      else L (Node h (c0 # c1 # cs)))"

text \<open>
  An embedding of the pattern graph \<open>P\<close> into the molecule graph \<open>G\<close>, written after
  the specification: the items of a one-to-one mapping from molecule nodes to all the
  pattern nodes, under which two mapped molecule nodes are joined exactly when their
  pattern nodes are, and the node predicate accepts every pair.
\<close>

definition is_embedding ::
  "(int, nat) graph \<Rightarrow> (node_id, ast) graph \<Rightarrow> (nat option \<Rightarrow> ast option \<Rightarrow> error + pyval)
     \<Rightarrow> (int \<times> node_id) list \<Rightarrow> bool" where
  "is_embedding G P nm m =
     (distinct (map fst m) \<and> distinct (map snd m)
      \<and> set (map snd m) = set (map fst (nodes P))
      \<and> set (map fst m) \<subseteq> set (map fst (nodes G))
      \<and> list_all (\<lambda>(a, n). list_all (\<lambda>(b, k). has_edge G a b = has_edge P n k) m) m
      \<and> list_all (\<lambda>(a, n). case nm (node_attr G a) (node_attr P n) of
                               Inl e \<Rightarrow> False | Inr v \<Rightarrow> truthy v) m)"

text \<open>
  The children that \<open>add_edges_loop\<close> walks through are all trees: it reads the head of
  every child, and goes into the children of a branch.
\<close>

fun walkable :: "ast list \<Rightarrow> bool" where
  "walkable [] = True"
| "walkable (Tok s # rest) = False"
| "walkable (Node k kts # rest) = ((if k = ''branch'' then walkable kts else True) \<and> walkable rest)"

text \<open>
  The ring-closure marks of a pattern, written after the specification: every character
  of every \<^verbatim>\<open>atom_label\<close> text, with the atom that carries the label (the label's
  parent), in the order of the pattern. \<open>digit_atoms t d\<close> lists the atoms on which the
  digit \<open>d\<close> appears, once per appearance. A label is readable when its first child is
  a token and, unless its text is empty, it has a parent. \<open>entry\<close> reads the list
  stored under a digit in the dictionary of \<open>label_digits\<close>.
\<close>

fun label_text :: "ast \<Rightarrow> string" where
  "label_text (Node h (Tok s # _)) = s"
| "label_text _ = []"

definition ring_marks_of :: "(node_id \<times> ast) list \<Rightarrow> (char \<times> node_id) list" where
  "ring_marks_of labels = concat (map (\<lambda>(p, n). map (\<lambda>d. (d, butlast p)) (label_text n)) labels)"

definition digit_atoms :: "ast \<Rightarrow> char \<Rightarrow> node_id list" where
  "digit_atoms t d =
     map snd (filter (\<lambda>(d', a). d' = d) (ring_marks_of (select ''atom_label'' [] t)))"

fun readable_label :: "node_id \<times> ast \<Rightarrow> bool" where
  "readable_label (p, Node h (Tok s # _)) = (s = [] \<or> p \<noteq> [])"
| "readable_label _ = False"

definition labels_readable :: "ast \<Rightarrow> bool" where
  "labels_readable t = list_all readable_label (select ''atom_label'' [] t)"

definition entry :: "(char \<times> node_id list) list \<Rightarrow> char \<Rightarrow> node_id list" where
  "entry ld d = (case map_of ld d of None \<Rightarrow> [] | Some ps \<Rightarrow> ps)"

section \<open>Example patterns and topologies\<close>

definition carbon :: atom where
  "carbon = \<lparr>index = 0, element = \<lparr>atomic_number = 6, name = ''carbon''\<rparr>,
     bond_partners = [1], cycles = None, whitelist = None, blacklist = None\<rparr>"

definition oxygen :: atom where
  "oxygen = \<lparr>index = 1, element = \<lparr>atomic_number = 8, name = ''oxygen''\<rparr>,
     bond_partners = [0], cycles = None, whitelist = None, blacklist = None\<rparr>"

text \<open>A carbon bonded to an oxygen, and the same topology once prepared.\<close>

definition carbon_oxygen :: topology where
  "carbon_oxygen =
     \<lparr>store = (\<lambda>r. if r = 0 then carbon else oxygen), atoms = [0, 1], bonds = [(0, 1)]\<rparr>"

definition prepared_carbon_oxygen :: topology where
  "prepared_carbon_oxygen =
     carbon_oxygen\<lparr>store := (store carbon_oxygen)(0 := init_atom carbon, 1 := init_atom oxygen)\<rparr>"

text \<open>A carbon between two oxygens: atom 0 bonded to atoms 1 and 2.\<close>

definition carbon_dioxide :: topology where
  "carbon_dioxide =
     \<lparr>store = (\<lambda>r. if r = 0 then carbon\<lparr>bond_partners := [1, 2]\<rparr> else oxygen\<lparr>index := int r\<rparr>),
      atoms = [0, 1, 2], bonds = [(0, 1), (0, 2)]\<rparr>"

text \<open>
  A topology whose first atom carries no derived state while its second atom carries a
  whitelist, a blacklist and a cycle from elsewhere.
\<close>

definition half_prepared :: topology where
  "half_prepared =
     \<lparr>store = (\<lambda>r. if r = 0 then carbon
                    else oxygen\<lparr>cycles := Some [[1, 2, 3]], whitelist := Some [''opls_154''],
                                 blacklist := Some []\<rparr>),
      atoms = [0, 1], bonds = [(0, 1)]\<rparr>"

text \<open>A topology without atoms.\<close>

definition no_atoms :: topology where
  "no_atoms = \<lparr>store = (\<lambda>r. carbon), atoms = [], bonds = []\<rparr>"

text \<open>The tree of the pattern \<^verbatim>\<open>[#6][#8]\<close> and its pattern graph.\<close>

definition chain_ast :: ast where
  "chain_ast = Node ''start''
     [Node ''atom'' [Node ''atom_id'' [Node ''atomic_num'' [Tok ''6'']]],
      Node ''atom'' [Node ''atom_id'' [Node ''atomic_num'' [Tok ''8'']]]]"

definition chain_graph :: "(node_id, ast) graph" where
  "chain_graph = \<lparr>nodes =
        [([0], Some (Node ''atom'' [Node ''atom_id'' [Node ''atomic_num'' [Tok ''6'']]])),
         ([1], Some (Node ''atom'' [Node ''atom_id'' [Node ''atomic_num'' [Tok ''8'']]]))],
        edges = [([0], [1])]\<rparr>"

text \<open>The tree of the pattern \<^verbatim>\<open>[#6]([#8])[#1]\<close>, with two branches, and its pattern graph.\<close>

definition branch_ast :: ast where
  "branch_ast = Node ''start''
     [Node ''atom'' [Node ''atom_id'' [Node ''atomic_num'' [Tok ''6'']]],
      Node ''branch'' [Node ''atom'' [Node ''atom_id'' [Node ''atomic_num'' [Tok ''8'']]]],
      Node ''branch'' [Node ''atom'' [Node ''atom_id'' [Node ''atomic_num'' [Tok ''1'']]]]]"

definition branch_graph :: "(node_id, ast) graph" where
  "branch_graph = \<lparr>nodes =
        [([0], Some (Node ''atom'' [Node ''atom_id'' [Node ''atomic_num'' [Tok ''6'']]])),
         ([1, 0], Some (Node ''atom'' [Node ''atom_id'' [Node ''atomic_num'' [Tok ''8'']]])),
         ([2, 0], Some (Node ''atom'' [Node ''atom_id'' [Node ''atomic_num'' [Tok ''1'']]]))],
        edges = [([1, 0], [0]), ([2, 0], [0])]\<rparr>"

text \<open>
  Patterns with ring-closure labels: \<^verbatim>\<open>[#6]11\<close> (the digit 1 twice on one atom),
  \<^verbatim>\<open>[#6]1[#6][#6]1\<close> (a ring of three), \<^verbatim>\<open>[#6]1[#6]\<close> (a ring never closed) and
  \<^verbatim>\<open>[#6]1[#6]1[#6]1\<close> (the digit 1 on three atoms).
\<close>

definition self_ring_ast :: ast where
  "self_ring_ast = Node ''start''
     [Node ''atom'' [Node ''atom_id'' [Node ''atomic_num'' [Tok ''6'']],
                     Node ''atom_label'' [Tok ''11'']]]"

definition ring_ast :: ast where
  "ring_ast = Node ''start''
     [Node ''atom'' [Node ''atom_id'' [Node ''atomic_num'' [Tok ''6'']],
                     Node ''atom_label'' [Tok ''1'']],
      Node ''atom'' [Node ''atom_id'' [Node ''atomic_num'' [Tok ''6'']]],
      Node ''atom'' [Node ''atom_id'' [Node ''atomic_num'' [Tok ''6'']],
                     Node ''atom_label'' [Tok ''1'']]]"

definition ring_graph :: "(node_id, ast) graph" where
  "ring_graph = \<lparr>nodes =
        [([0], Some (Node ''atom'' [Node ''atom_id'' [Node ''atomic_num'' [Tok ''6'']],
                                    Node ''atom_label'' [Tok ''1'']])),
         ([1], Some (Node ''atom'' [Node ''atom_id'' [Node ''atomic_num'' [Tok ''6'']]])),
         ([2], Some (Node ''atom'' [Node ''atom_id'' [Node ''atomic_num'' [Tok ''6'']],
                                    Node ''atom_label'' [Tok ''1'']]))],
        edges = [([0], [1]), ([1], [2]), ([0], [2])]\<rparr>"

definition open_ring_ast :: ast where
  "open_ring_ast = Node ''start''
     [Node ''atom'' [Node ''atom_id'' [Node ''atomic_num'' [Tok ''6'']],
                     Node ''atom_label'' [Tok ''1'']],
      Node ''atom'' [Node ''atom_id'' [Node ''atomic_num'' [Tok ''6'']]]]"

definition triple_ring_ast :: ast where
  "triple_ring_ast = Node ''start''
     [Node ''atom'' [Node ''atom_id'' [Node ''atomic_num'' [Tok ''6'']],
                     Node ''atom_label'' [Tok ''1'']],
      Node ''atom'' [Node ''atom_id'' [Node ''atomic_num'' [Tok ''6'']],
                     Node ''atom_label'' [Tok ''1'']],
      Node ''atom'' [Node ''atom_id'' [Node ''atomic_num'' [Tok ''6'']],
                     Node ''atom_label'' [Tok ''1'']]]"

definition self_ring_graph :: "(node_id, ast) graph" where
  "self_ring_graph = \<lparr>nodes =
        [([0], Some (Node ''atom'' [Node ''atom_id'' [Node ''atomic_num'' [Tok ''6'']],
                                    Node ''atom_label'' [Tok ''11'']]))],
        edges = [([0], [0])]\<rparr>"

text \<open>A constraint: not (carbon and (oxygen or anything)).\<close>

definition sample_expr :: ast where
  "sample_expr = Node ''not_expression''
     [Node ''and_expression''
        [Node ''atom_id'' [Node ''atomic_num'' [Tok ''6'']],
         Node ''or_expression''
           [Node ''atom_id'' [Node ''atomic_num'' [Tok ''8'']],
            Node ''atom_id'' [Node ''atom_symbol'' [Tok ''*'']]]]]"

text \<open>
  Stand-ins for the library parameters on the examples: a cycle basis for a graph
  without cycles, the matcher's answer for the chain pattern on the bonded pair (its one
  embedding) and on the carbon between two oxygens (its two embeddings, both with the
  carbon at the root).
\<close>

definition no_cycles :: "nat list \<Rightarrow> (nat \<times> nat) list \<Rightarrow> nat list list" where
  "no_cycles ns es = []"

definition chain_matcher :: matcher where
  "chain_matcher G P nm = ([[(0, [0]), (1, [1])]], None)"

definition dioxide_matcher :: matcher where
  "dioxide_matcher G P nm = ([[(0, [0]), (1, [1])], [(0, [0]), (2, [1])]], None)"

section \<open>The examples evaluated\<close>

lemma chain_graph_built: "SMARTSGraph chain_ast = Inr chain_graph"
  by (simp add: SMARTSGraph_def chain_ast_def chain_graph_def add_nodes_def add_label_edges_def
      add_node_def add_edge_def touch_node_def has_node_def has_edge_def empty_graph_def)

lemma prepare_carbon_oxygen:
  "prepare_atoms no_cycles carbon_oxygen = (prepared_carbon_oxygen, None)"
  by (simp add: prepare_atoms_def carbon_oxygen_def no_cycles_def carbon_def
      prepared_carbon_oxygen_def)

lemma molecule_graph_carbon_oxygen:
  "molecule_graph prepared_carbon_oxygen = \<lparr>nodes = [(0, Some 0), (1, Some 1)], edges = [(0, 1)]\<rparr>"
  by (simp add: molecule_graph_def carbon_oxygen_def carbon_def oxygen_def init_atom_def
      prepared_carbon_oxygen_def add_node_def add_edge_def touch_node_def has_node_def
      has_edge_def empty_graph_def)

lemma find_matches_chain:
  "find_matches gs Map.empty no_cycles chain_matcher chain_graph (Some carbon_oxygen)
     = (Gen [0] None, Some prepared_carbon_oxygen)"
  by (simp add: find_matches_def find_matches_body_def leaves_generator_def
      prepare_carbon_oxygen chain_matcher_def chain_graph_def)

lemma chain_matcher_sound:
  "list_all (is_embedding (molecule_graph prepared_carbon_oxygen) chain_graph
               (node_match Map.empty (store prepared_carbon_oxygen)))
     (fst (chain_matcher (molecule_graph prepared_carbon_oxygen) chain_graph
             (node_match Map.empty (store prepared_carbon_oxygen))))"
  unfolding molecule_graph_carbon_oxygen
  by (simp add: chain_matcher_def is_embedding_def chain_graph_def has_edge_def
      node_attr_def carbon_def oxygen_def init_atom_def tail0_int_def py_int_def is_digit_def
      prepared_carbon_oxygen_def carbon_oxygen_def)

lemma find_matches_dioxide:
  "fst (find_matches gs Map.empty no_cycles dioxide_matcher chain_graph (Some carbon_dioxide))
     = Gen [0] None"
  by (simp add: find_matches_def find_matches_body_def leaves_generator_def prepare_atoms_def
      carbon_dioxide_def no_cycles_def carbon_def oxygen_def dioxide_matcher_def chain_graph_def
      split: prod.splits)

section \<open>The pattern matcher: root atoms, without repetition\<close>

lemma match_loop_fresh:
  "distinct (yielded (match_loop f M ms fin)) \<and> set (yielded (match_loop f M ms fin)) \<inter> M = {}"
proof (induction ms arbitrary: M)
  case Nil
  then show ?case by simp
next
  case (Cons m ms)
  show ?case
  proof (cases "map_of (rev (map (\<lambda>(atom_id, nid). (nid, atom_id)) m)) f")
    case None
    then show ?thesis by simp
  next
    case (Some j)
    show ?thesis
    proof (cases "j \<in> M")
      case True
      with Some Cons.IH [of M] show ?thesis by simp
    next
      case False
      obtain ys e where rest: "match_loop f (insert j M) ms fin = Gen ys e"
        by (cases "match_loop f (insert j M) ms fin")
      with Cons.IH [of "insert j M"] have "distinct ys" and "set ys \<inter> insert j M = {}"
        by simp_all
      with Some False rest show ?thesis by auto
    qed
  qed
qed

lemma match_loop_source:
  "i \<in> set (yielded (match_loop f M ms fin)) \<Longrightarrow> \<exists>m \<in> set ms. (i, f) \<in> set m"
proof (induction ms arbitrary: M)
  case Nil
  then show ?case by simp
next
  case (Cons m ms)
  show ?case
  proof (cases "map_of (rev (map (\<lambda>(atom_id, nid). (nid, atom_id)) m)) f")
    case None
    with Cons.prems show ?thesis by simp
  next
    case (Some j)
    then have "(f, j) \<in> set (rev (map (\<lambda>(atom_id, nid). (nid, atom_id)) m))"
      by (rule map_of_SomeD)
    then have here: "(j, f) \<in> set m" by auto
    show ?thesis
    proof (cases "i = j")
      case True
      with here show ?thesis by auto
    next
      case False
      with Cons.prems Some have "i \<in> set (yielded (match_loop f (insert j M) ms fin))
          \<or> i \<in> set (yielded (match_loop f M ms fin))"
        by (auto split: if_splits gen.splits)
      then show ?thesis using Cons.IH by auto
    qed
  qed
qed

lemma find_matches_body_of:
  "find_matches gs AtomicNum cb gm pg topology = (Gen ys e, topology') \<Longrightarrow>
     \<exists>e'. find_matches_body AtomicNum cb gm pg topology = (Gen ys e', topology')"
  by (auto simp: find_matches_def split: prod.splits gen.splits)

lemma find_matches_yielded:
  "yielded (fst (find_matches gs AtomicNum cb gm pg topology))
     = yielded (fst (find_matches_body AtomicNum cb gm pg topology))"
  by (auto simp: find_matches_def split: prod.splits gen.splits)

text \<open>
  C1. Every atom index that \<open>find_matches\<close> yields on a topology is bound to the root
  of the pattern graph, its first-inserted node, in an embedding of the pattern graph
  into the molecule graph of the prepared topology, provided the mappings the matcher
  produces are embeddings.
\<close>

theorem find_matches_yields_root_atom:
  assumes "find_matches gs AtomicNum cb gm pg (Some topo) = (Gen ys e, Some topo')"
    and "list_all (is_embedding (molecule_graph topo') pg (node_match AtomicNum (store topo')))
           (fst (gm (molecule_graph topo') pg (node_match AtomicNum (store topo'))))"
    and "i \<in> set ys"
  shows "\<exists>m root. map fst (take 1 (nodes pg)) = [root]
           \<and> is_embedding (molecule_graph topo') pg (node_match AtomicNum (store topo')) m
           \<and> (i, root) \<in> set m"
proof -
  from find_matches_body_of [OF assms(1)] obtain e' where
    body: "find_matches_body AtomicNum cb gm pg (Some topo) = (Gen ys e', Some topo')"
    by blast
  obtain t1 err where prep: "prepare_atoms cb topo = (t1, err)"
    by (cases "prepare_atoms cb topo")
  with body have t1: "t1 = topo'"
    by (auto simp: find_matches_body_def split: option.splits prod.splits list.splits)
  from body assms(3) prep have err: "err = None"
    by (auto simp: find_matches_body_def split: option.splits prod.splits list.splits)
  obtain ms fin where
    gm: "gm (molecule_graph topo') pg (node_match AtomicNum (store topo')) = (ms, fin)"
    by (cases "gm (molecule_graph topo') pg (node_match AtomicNum (store topo'))")
  from body assms(3) prep t1 err gm obtain root x rest where
    nodes: "nodes pg = (root, x) # rest" and loop: "match_loop root {} ms fin = Gen ys e'"
    by (auto simp: find_matches_body_def split: list.splits)
  from loop assms(3) have "i \<in> set (yielded (match_loop root {} ms fin))" by simp
  then obtain m where "m \<in> set ms" "(i, root) \<in> set m"
    using match_loop_source by blast
  moreover from assms(2) gm \<open>m \<in> set ms\<close>
  have "is_embedding (molecule_graph topo') pg (node_match AtomicNum (store topo')) m"
    by (simp add: list_all_iff)
  ultimately show ?thesis using nodes by auto
qed

text \<open>
  The chain pattern \<^verbatim>\<open>[#6][#8]\<close> on the bonded carbon and oxygen: the carbon's index is
  yielded, the oxygen's is not, and the carbon is bound to the root \<open>[0]\<close>.
\<close>

theorem find_matches_yields_root_atom_witness:
  "find_matches True Map.empty no_cycles chain_matcher chain_graph (Some carbon_oxygen)
     = (Gen [0] None, Some prepared_carbon_oxygen)
   \<and> (\<exists>m. is_embedding (molecule_graph prepared_carbon_oxygen) chain_graph
              (node_match Map.empty (store prepared_carbon_oxygen)) m
         \<and> (0, [0]) \<in> set m)"
proof -
  let ?t = "prepared_carbon_oxygen"
  have b: "(0::int) \<in> set [0]" by simp
  from find_matches_yields_root_atom [OF find_matches_chain chain_matcher_sound b]
  obtain m root where
    r: "map fst (take 1 (nodes chain_graph)) = [root]"
    and e: "is_embedding (molecule_graph ?t) chain_graph (node_match Map.empty (store ?t)) m"
    and i: "(0, root) \<in> set m"
    by auto
  from r have "root = [0]" by (simp add: chain_graph_def)
  with e i find_matches_chain show ?thesis by auto
qed

text \<open>
  C3. The sequence one call of \<open>find_matches\<close> yields has no atom index twice, whatever
  mappings the matcher produces and however the call ends.
\<close>

theorem find_matches_no_duplicates:
  "distinct (yielded (fst (find_matches gs AtomicNum cb gm pg topology)))"
  unfolding find_matches_yielded
  by (auto simp: find_matches_body_def match_loop_fresh
      split: option.splits prod.splits list.splits)

text \<open>
  On the carbon between two oxygens the chain pattern has two embeddings with the carbon
  at the root; its index is yielded once.
\<close>

theorem find_matches_no_duplicates_witness:
  "fst (find_matches True Map.empty no_cycles dioxide_matcher chain_graph (Some carbon_dioxide))
     = Gen [0] None
   \<and> distinct (yielded
        (fst (find_matches True Map.empty no_cycles dioxide_matcher chain_graph
               (Some carbon_dioxide))))"
  using find_matches_no_duplicates
    [of True Map.empty no_cycles dioxide_matcher chain_graph "Some carbon_dioxide"]
  by (simp add: find_matches_dioxide)

text \<open>
  C5. On an absent topology \<open>find_matches\<close> yields nothing and ends by returning: no
  atom, no exception.
\<close>

theorem find_matches_null_topology:
  "find_matches gs AtomicNum cb gm pg None = (Gen [] None, None)"
  by (simp add: find_matches_def find_matches_body_def leaves_generator_def)

theorem find_matches_null_topology_witness:
  "find_matches True Map.empty no_cycles chain_matcher chain_graph None = (Gen [] None, None)
   \<and> find_matches False Map.empty no_cycles chain_matcher chain_graph None = (Gen [] None, None)"
  by (simp add: find_matches_null_topology)

text \<open>
  C10, as amended. On a topology without atoms \<open>find_matches\<close> yields no atom index:
  the preparation step takes the first element of an empty iterator, \<open>prepare_atoms\<close>
  ends with \<open>StopIteration\<close>, and that exception leaves the body of the generator. Where
  the interpreter applies PEP 479 the consumer gets \<open>RuntimeError\<close>; where it does not,
  the sequence ends without any exception, empty.
\<close>

theorem find_matches_no_atoms:
  assumes "atoms topo = []"
  shows "prepare_atoms cb topo = (topo, Some StopIteration)
       \<and> find_matches_body AtomicNum cb gm pg (Some topo)
           = (Gen [] (Some StopIteration), Some topo)
       \<and> find_matches True AtomicNum cb gm pg (Some topo)
           = (Gen [] (Some RuntimeError), Some topo)
       \<and> find_matches False AtomicNum cb gm pg (Some topo) = (Gen [] None, Some topo)"
  using assms
  by (simp add: find_matches_def find_matches_body_def leaves_generator_def prepare_atoms_def)

theorem find_matches_no_atoms_witness:
  "atoms no_atoms = []
   \<and> prepare_atoms no_cycles no_atoms = (no_atoms, Some StopIteration)
   \<and> find_matches True Map.empty no_cycles chain_matcher chain_graph (Some no_atoms)
       = (Gen [] (Some RuntimeError), Some no_atoms)
   \<and> find_matches False Map.empty no_cycles chain_matcher chain_graph (Some no_atoms)
       = (Gen [] None, Some no_atoms)"
proof -
  have a: "atoms no_atoms = []" by (simp add: no_atoms_def)
  from find_matches_no_atoms [OF a, of no_cycles Map.empty chain_matcher chain_graph] a
  show ?thesis by simp
qed

text \<open>
  The claim as first stated has the call raise an error instead of yielding an empty
  sequence. Without PEP 479 it does not: on the topology without atoms the consumer gets
  the empty sequence and no exception, the very result of the absent topology.
\<close>

theorem find_matches_no_atoms_silent_counterexample:
  "find_matches False Map.empty no_cycles chain_matcher chain_graph (Some no_atoms)
     = (Gen [] None, Some no_atoms)
   \<and> fst (find_matches False Map.empty no_cycles chain_matcher chain_graph (Some no_atoms))
       = fst (find_matches False Map.empty no_cycles chain_matcher chain_graph None)"
  by (simp add: find_matches_def find_matches_body_def leaves_generator_def prepare_atoms_def
      no_atoms_def)

section \<open>The atom constraint evaluator\<close>

text \<open>
  C2. On every constraint expression tree, whatever its depth, whose leaves the leaf
  predicate evaluator answers with a boolean, \<open>atom_expr_matches\<close> returns the boolean
  algebra of the connectives over those answers: the negation of the child of a
  \<^verbatim>\<open>not_expression\<close>, the conjunction of the two children of an \<^verbatim>\<open>and_expression\<close> or
  \<^verbatim>\<open>weak_and_expression\<close>, the disjunction of the two children of an \<^verbatim>\<open>or_expression\<close>,
  and at an \<^verbatim>\<open>atom_id\<close> or \<^verbatim>\<open>atom_symbol\<close> node the answer of \<open>atom_id_matches\<close>.
\<close>

theorem atom_expr_matches_boolean_algebra:
  assumes "expr_tree t"
    and "list_all (\<lambda>l. atom_id_matches AtomicNum l atom = Inr (PyBool (L l))) (leaves t)"
  shows "atom_expr_matches AtomicNum t atom = Inr (PyBool (bool_algebra L t))"
  using assms
proof (induction L t rule: bool_algebra.induct)
  case (1 L s)
  then show ?case by simp
next
  case (2 L h)
  then show ?case by simp
next
  case (3 L h c0)
  then show ?case by (auto split: if_splits)
next
  case (4 L h c0 c1 cs)
  then show ?case by (auto split: if_splits)
qed

text \<open>
  On a carbon, not (carbon and (oxygen or anything)) is false: the leaves answer true,
  false and true.
\<close>

theorem atom_expr_matches_boolean_algebra_witness:
  "expr_tree sample_expr
   \<and> leaves sample_expr =
       [Node ''atomic_num'' [Tok ''6''], Node ''atomic_num'' [Tok ''8''],
        Node ''atom_symbol'' [Tok ''*'']]
   \<and> atom_expr_matches Map.empty sample_expr carbon = Inr (PyBool False)"
proof -
  let ?L = "\<lambda>l. l \<noteq> Node ''atomic_num'' [Tok ''8'']"
  have t: "expr_tree sample_expr" by (simp add: sample_expr_def)
  have ls: "leaves sample_expr =
       [Node ''atomic_num'' [Tok ''6''], Node ''atomic_num'' [Tok ''8''],
        Node ''atom_symbol'' [Tok ''*'']]"
    by (simp add: sample_expr_def)
  have l: "list_all (\<lambda>l. atom_id_matches Map.empty l carbon = Inr (PyBool (?L l)))
             (leaves sample_expr)"
    unfolding ls by (simp add: carbon_def tail0_int_def py_int_def is_digit_def)
  have "bool_algebra ?L sample_expr = False" by (simp add: sample_expr_def)
  with atom_expr_matches_boolean_algebra [OF t l] t ls show ?thesis by simp
qed

text \<open>
  C6. An unexpected kind at the level of the connectives raises \<open>TypeError\<close>. At the
  level of the leaf predicates it does not: \<open>atom_id_matches\<close> has no final branch, and
  on a leaf of a kind it does not know it returns \<^verbatim>\<open>None\<close>, which the callers read as
  false (its negation is true).
\<close>

theorem atom_id_matches_unexpected_kind:
  "atom_expr_matches AtomicNum (Node ''chirality'' [Tok ''@'']) atom = Inl TypeError
   \<and> atom_id_matches AtomicNum (Node ''chirality'' [Tok ''@'']) atom = Inr PyNone
   \<and> atom_expr_matches AtomicNum (Node ''atom_id'' [Node ''chirality'' [Tok ''@'']]) atom
       = Inr PyNone
   \<and> atom_expr_matches AtomicNum
       (Node ''not_expression'' [Node ''atom_id'' [Node ''chirality'' [Tok ''@'']]]) atom
       = Inr (PyBool True)"
  by simp

theorem atom_id_matches_unexpected_kind_witness:
  "atom_expr_matches Map.empty (Node ''chirality'' [Tok ''@'']) carbon = Inl TypeError
   \<and> atom_id_matches Map.empty (Node ''chirality'' [Tok ''@'']) carbon = Inr PyNone
   \<and> atom_expr_matches Map.empty (Node ''atom_id'' [Node ''chirality'' [Tok ''@'']]) carbon
       = Inr PyNone
   \<and> atom_expr_matches Map.empty
       (Node ''not_expression'' [Node ''atom_id'' [Node ''chirality'' [Tok ''@'']]]) carbon
       = Inr (PyBool True)"
  by (rule atom_id_matches_unexpected_kind)

text \<open>
  C8. On every atom a \<^verbatim>\<open>matches_string\<close> leaf raises \<open>NotImplementedError\<close>, from the
  leaf evaluator and through the \<^verbatim>\<open>atom_id\<close> node above it: no truth value is returned,
  and the exception is not one of those a malformed pattern raises (\<open>FoyerError\<close> for a
  branch without trunk, \<open>ValueError\<close> for a ring label, \<open>TypeError\<close> for an unexpected
  expression kind).
\<close>

theorem matches_string_not_implemented:
  "atom_id_matches AtomicNum (Node ''matches_string'' ts) atom = Inl NotImplementedError
   \<and> atom_expr_matches AtomicNum (Node ''atom_id'' (Node ''matches_string'' ts # cs)) atom
       = Inl NotImplementedError
   \<and> NotImplementedError \<notin> {FoyerError, ValueError, TypeError}"
  by (cases cs) simp_all

theorem matches_string_not_implemented_witness:
  "atom_id_matches Map.empty (Node ''matches_string'' [Tok ''CC'']) carbon
     = Inl NotImplementedError
   \<and> atom_expr_matches Map.empty (Node ''atom_id'' [Node ''matches_string'' [Tok ''CC'']]) carbon
       = Inl NotImplementedError
   \<and> NotImplementedError \<notin> {FoyerError, ValueError, TypeError}"
  by (rule matches_string_not_implemented)

section \<open>The pattern graph builder: chain and branch edges\<close>

lemma has_edge_touch_node [simp]: "has_edge (touch_node g k) a b = has_edge g a b"
  by (simp add: touch_node_def has_edge_def)

lemma has_edge_add_edge:
  "has_edge (add_edge g u v) a b \<longleftrightarrow> has_edge g a b \<or> (a = u \<and> b = v) \<or> (a = v \<and> b = u)"
  by (auto simp: add_edge_def Let_def has_edge_def touch_node_def)

lemma add_edges_loop_keeps:
  "add_edges_loop g p h i kids trunk = Inr g' \<Longrightarrow> has_edge g a b \<Longrightarrow> has_edge g' a b"
proof (induction g p h i kids trunk arbitrary: g' rule: add_edges_loop.induct)
  case (1 g p h i trunk)
  then show ?case by simp
next
  case (2 g p h i s rest trunk)
  then show ?case by simp
next
  case (3 g p h i k kts rest trunk)
  show ?case
  proof (cases "k = ''atom''")
    case atom: True
    define g1 where "g1 = (if i = 0 \<and> h = ''branch'' then add_edge g (p @ [i]) (the trunk) else g)"
    have g1: "has_edge g1 a b" using "3.prems"(2) by (simp add: g1_def has_edge_add_edge)
    have st: "(if i = 0 \<and> h = ''branch''
               then (case trunk of None \<Rightarrow> Inl FoyerError
                     | Some t \<Rightarrow> Inr (add_edge g (p @ [i]) t))
               else Inr g) = Inr g1"
      using "3.prems"(1) atom by (auto simp: g1_def split: option.splits if_splits)
    show ?thesis
    proof (cases rest)
      case Nil
      with "3.prems"(1) atom st g1 show ?thesis by simp
    next
      case (Cons n ns)
      show ?thesis
      proof (cases n)
        case (Tok s)
        with "3.prems"(1) atom st Cons show ?thesis by simp
      next
        case (Node nk nts)
        show ?thesis
        proof (cases "nk = ''atom''")
          case True
          have "has_edge (add_edge g1 (p @ [i]) (p @ [Suc i])) a b"
            using g1 by (simp add: has_edge_add_edge)
          moreover have "add_edges_loop (add_edge g1 (p @ [i]) (p @ [Suc i])) p h (Suc i) rest trunk = Inr g'"
            using "3.prems"(1) atom st Cons Node True by simp
          ultimately show ?thesis
            using "3.IH"(1) [OF atom st Cons Node True] by blast
        next
          case notatom: False
          show ?thesis
          proof (cases "nk = ''branch''")
            case True
            have "add_edges_loop g1 p h (Suc i) rest (Some (p @ [i])) = Inr g'"
              using "3.prems"(1) atom st Cons Node True by simp
            then show ?thesis
              using "3.IH"(2) [OF atom st Cons Node notatom True] g1 by blast
          next
            case False
            have "add_edges_loop g1 p h (Suc i) rest trunk = Inr g'"
              using "3.prems"(1) atom st Cons Node notatom False by simp
            then show ?thesis
              using "3.IH"(3) [OF atom st Cons Node notatom False] g1 by blast
          qed
        qed
      qed
    qed
  next
    case notatom: False
    show ?thesis
    proof (cases "k = ''branch''")
      case True
      from "3.prems"(1) notatom True obtain g1 where
        inner: "add_edges_loop g (p @ [i]) k 0 kts trunk = Inr g1"
        and outer: "add_edges_loop g1 p h (Suc i) rest trunk = Inr g'"
        by (auto split: sum.splits)
      from "3.IH"(4) [OF notatom True inner "3.prems"(2)] have "has_edge g1 a b" .
      with "3.IH"(5) [OF notatom True inner outer] show ?thesis .
    next
      case False
      with "3.prems" notatom "3.IH"(6) show ?thesis by simp
    qed
  qed
qed


lemma add_edges_loop_total:
  "walkable kids \<Longrightarrow> trunk \<noteq> None \<Longrightarrow> \<exists>g'. add_edges_loop g p h i kids trunk = Inr g'"
proof (induction g p h i kids trunk rule: add_edges_loop.induct)
  case (1 g p h i trunk)
  then show ?case by simp
next
  case (2 g p h i s rest trunk)
  then show ?case by simp
next
  case (3 g p h i k kts rest trunk)
  from "3.prems" obtain t where t: "trunk = Some t" by auto
  show ?case
  proof (cases "k = ''atom''")
    case atom: True
    define g1 where "g1 = (if i = 0 \<and> h = ''branch'' then add_edge g (p @ [i]) t else g)"
    have st: "(if i = 0 \<and> h = ''branch''
               then (case trunk of None \<Rightarrow> Inl FoyerError
                     | Some t \<Rightarrow> Inr (add_edge g (p @ [i]) t))
               else Inr g) = Inr g1"
      using t by (simp add: g1_def)
    show ?thesis
    proof (cases rest)
      case Nil
      with atom st show ?thesis by simp
    next
      case (Cons n ns)
      show ?thesis
      proof (cases n)
        case (Tok s)
        with "3.prems"(1) Cons show ?thesis by simp
      next
        case (Node nk nts)
        from "3.prems"(1) have w: "walkable rest" by simp
        show ?thesis
        proof (cases "nk = ''atom''")
          case True
          from "3.IH"(1) [OF atom st Cons Node True w "3.prems"(2)]
          show ?thesis using atom st Cons Node True by simp
        next
          case notatom: False
          show ?thesis
          proof (cases "nk = ''branch''")
            case True
            from "3.IH"(2) [OF atom st Cons Node notatom True w]
            show ?thesis using atom st Cons Node True by simp
          next
            case False
            from "3.IH"(3) [OF atom st Cons Node notatom False w "3.prems"(2)]
            show ?thesis using atom st Cons Node notatom False by simp
          qed
        qed
      qed
    qed
  next
    case notatom: False
    from "3.prems"(1) have w: "walkable rest" by simp
    show ?thesis
    proof (cases "k = ''branch''")
      case True
      with "3.prems"(1) have "walkable kts" by simp
      from "3.IH"(4) [OF notatom True this "3.prems"(2)] obtain g1 where
        inner: "add_edges_loop g (p @ [i]) k 0 kts trunk = Inr g1" by blast
      from "3.IH"(5) [OF notatom True inner w "3.prems"(2)]
      show ?thesis using notatom True inner by simp
    next
      case False
      from "3.IH"(6) [OF notatom False w "3.prems"(2)]
      show ?thesis using notatom False by simp
    qed
  qed
qed

text \<open>
  C9. In \<open>add_edges\<close> on a branch node whose first child is an atom: without a trunk
  the call raises \<open>FoyerError\<close>; with a trunk, the graph the call returns joins that
  atom to the trunk, and the call does return a graph when the children it walks
  through after the atom are all trees.
\<close>

theorem add_edges_branch_trunk:
  "add_edges g p (Node ''branch'' (Node ''atom'' ats # rest)) None = Inl FoyerError
   \<and> (\<forall>g'. add_edges g p (Node ''branch'' (Node ''atom'' ats # rest)) (Some t) = Inr g'
          \<longrightarrow> has_edge g' (p @ [0]) t)
   \<and> (walkable rest
          \<longrightarrow> (\<exists>g'. add_edges g p (Node ''branch'' (Node ''atom'' ats # rest)) (Some t) = Inr g'))"
proof -
  have none: "add_edges g p (Node ''branch'' (Node ''atom'' ats # rest)) None = Inl FoyerError"
    by simp
  have edge: "has_edge g' (p @ [0]) t"
    if r: "add_edges g p (Node ''branch'' (Node ''atom'' ats # rest)) (Some t) = Inr g'" for g'
  proof -
    let ?g1 = "add_edge g (p @ [0]) t"
    have start: "has_edge ?g1 (p @ [0]) t"
      by (simp add: has_edge_add_edge)
    then have more: "has_edge (add_edge ?g1 (p @ [0]) (p @ [Suc 0])) (p @ [0]) t"
      by (simp add: has_edge_add_edge)
    from r have "(case rest of
                [] \<Rightarrow> Inr ?g1
              | Tok s # _ \<Rightarrow> Inl AttributeError
              | Node nk nts # _ \<Rightarrow>
                  if nk = ''atom''
                    then add_edges_loop (add_edge ?g1 (p @ [0]) (p @ [Suc 0])) p ''branch'' (Suc 0) rest (Some t)
                  else if nk = ''branch''
                    then add_edges_loop ?g1 p ''branch'' (Suc 0) rest (Some (p @ [0]))
                  else add_edges_loop ?g1 p ''branch'' (Suc 0) rest (Some t)) = Inr g'"
      by simp
    then show ?thesis using start more
      by (auto simp del: add_edges_loop.simps split: list.splits ast.splits if_splits
          elim: add_edges_loop_keeps)
  qed
  have total: "\<exists>g'. add_edges g p (Node ''branch'' (Node ''atom'' ats # rest)) (Some t) = Inr g'"
    if w: "walkable rest"
  proof -
    have "walkable (Node ''atom'' ats # rest)" using w by simp
    then have "\<exists>g'. add_edges_loop g p ''branch'' 0 (Node ''atom'' ats # rest) (Some t) = Inr g'"
      by (rule add_edges_loop_total) simp
    then show ?thesis by simp
  qed
  from none edge total show ?thesis by blast
qed

text \<open>
  The branch \<^verbatim>\<open>([#8])\<close> at position 1 of its parent, with the atom at position 0 as
  trunk and without trunk; and a whole pattern that begins with a branch.
\<close>

theorem add_edges_branch_trunk_witness:
  "add_edges empty_graph [1] (Node ''branch'' [Node ''atom'' []]) None = Inl FoyerError
   \<and> walkable []
   \<and> (\<exists>g'. add_edges empty_graph [1] (Node ''branch'' [Node ''atom'' []]) (Some [0]) = Inr g'
          \<and> has_edge g' [1, 0] [0])
   \<and> SMARTSGraph (Node ''start'' [Node ''branch'' [Node ''atom'' []]]) = Inl FoyerError
   \<and> SMARTSGraph branch_ast = Inr branch_graph"
proof -
  have w: "walkable []" by simp
  have s: "SMARTSGraph (Node ''start'' [Node ''branch'' [Node ''atom'' []]]) = Inl FoyerError"
    by (simp add: SMARTSGraph_def)
  have b: "SMARTSGraph branch_ast = Inr branch_graph"
    by (simp add: SMARTSGraph_def branch_ast_def branch_graph_def add_nodes_def
        add_label_edges_def add_node_def add_edge_def touch_node_def has_node_def has_edge_def
        empty_graph_def)
  from add_edges_branch_trunk [of empty_graph "[1]" "[]" "[]" "[0]"] w s b
  show ?thesis by auto
qed

section \<open>The pattern graph builder: ring-closure edges\<close>

lemma label_digits_marks:
  "list_all readable_label labels \<Longrightarrow>
     label_digits labels ld = Inr (foldl (\<lambda>ld (d, a). append_label d a ld) ld (ring_marks_of labels))"
proof (induction labels arbitrary: ld)
  case Nil
  then show ?case by (simp add: ring_marks_of_def)
next
  case (Cons l labels)
  obtain p n where l: "l = (p, n)" by (cases l)
  from Cons.prems l obtain h s ts where n: "n = Node h (Tok s # ts)" and ok: "s = [] \<or> p \<noteq> []"
    by (cases "(p, n)" rule: readable_label.cases) auto
  from Cons.prems have rest: "list_all readable_label labels" by simp
  have marks: "ring_marks_of (l # labels) = map (\<lambda>d. (d, butlast p)) s @ ring_marks_of labels"
    by (simp add: ring_marks_of_def l n)
  have fold: "foldl (\<lambda>ld digit. append_label digit (butlast p) ld) ld s
      = foldl (\<lambda>ld (d, a). append_label d a ld) ld (map (\<lambda>d. (d, butlast p)) s)"
    by (induction s arbitrary: ld) simp_all
  show ?case
  proof (cases "s = []")
    case True
    with Cons.IH [OF rest] l n marks show ?thesis by simp
  next
    case False
    with ok have "p \<noteq> []" by simp
    with False Cons.IH [OF rest] l n marks fold show ?thesis by simp
  qed
qed

lemma map_of_append_label:
  "map_of (append_label d a ld) d' =
     (if d' = d then Some (entry ld d @ [a]) else map_of ld d')"
  by (induction ld) (auto simp: entry_def)

lemma keys_append_label:
  "map fst (append_label d a ld) = (if d \<in> set (map fst ld) then map fst ld else map fst ld @ [d])"
proof (induction ld)
  case Nil
  then show ?case by simp
next
  case (Cons x ld)
  obtain d' ps where x: "x = (d', ps)" by (cases x)
  show ?case
  proof (cases "d' = d")
    case True
    with x show ?thesis by simp
  next
    case False
    with x Cons.IH show ?thesis by simp
  qed
qed

lemma distinct_append_label:
  "distinct (map fst ld) \<Longrightarrow> distinct (map fst (append_label d a ld))"
  by (simp add: keys_append_label)

lemma entry_append_label:
  "entry (append_label d a ld) d' = entry ld d' @ (if d' = d then [a] else [])"
  by (simp add: entry_def map_of_append_label)

lemma nonempty_append_label:
  "list_all (\<lambda>(d, ps). ps \<noteq> []) ld \<Longrightarrow> list_all (\<lambda>(d, ps). ps \<noteq> []) (append_label d a ld)"
  by (induction ld) auto

lemma marks_fold:
  "distinct (map fst ld) \<and> list_all (\<lambda>(d, ps). ps \<noteq> []) ld \<Longrightarrow>
   distinct (map fst (foldl (\<lambda>ld (d, a). append_label d a ld) ld ms))
   \<and> list_all (\<lambda>(d, ps). ps \<noteq> []) (foldl (\<lambda>ld (d, a). append_label d a ld) ld ms)
   \<and> (\<forall>d. entry (foldl (\<lambda>ld (d, a). append_label d a ld) ld ms) d
          = entry ld d @ map snd (filter (\<lambda>(d', a). d' = d) ms))"
proof (induction ms arbitrary: ld)
  case Nil
  then show ?case by simp
next
  case (Cons m ms)
  obtain d a where m: "m = (d, a)" by (cases m)
  from Cons.prems have "distinct (map fst (append_label d a ld))
      \<and> list_all (\<lambda>(d, ps). ps \<noteq> []) (append_label d a ld)"
    by (simp add: distinct_append_label nonempty_append_label)
  from Cons.IH [OF this] m show ?case
    by (auto simp: entry_append_label)
qed

lemma entry_iff:
  assumes "distinct (map fst ld)" and "list_all (\<lambda>(d, ps). ps \<noteq> []) ld"
  shows "(d, ps) \<in> set ld \<longleftrightarrow> ps \<noteq> [] \<and> entry ld d = ps"
proof
  assume in_ld: "(d, ps) \<in> set ld"
  with assms(1) have "map_of ld d = Some ps" by simp
  moreover from in_ld assms(2) have "ps \<noteq> []" by (auto simp: list_all_iff)
  ultimately show "ps \<noteq> [] \<and> entry ld d = ps" by (simp add: entry_def)
next
  assume "ps \<noteq> [] \<and> entry ld d = ps"
  then have "map_of ld d = Some ps" by (auto simp: entry_def split: option.splits)
  then show "(d, ps) \<in> set ld" by (rule map_of_SomeD)
qed


lemma length_two: "length ps = 2 \<longleftrightarrow> (\<exists>a b. ps = [a, b])"
  by (auto simp: length_Suc_conv numeral_2_eq_2)

lemma add_ring_edges_pairs:
  "list_all (\<lambda>(d, ps). length ps = 2) ld \<Longrightarrow>
     \<exists>g'. add_ring_edges g ld = Inr g'
       \<and> (\<forall>u v. has_edge g' u v \<longleftrightarrow>
             has_edge g u v \<or> (\<exists>d. (d, [u, v]) \<in> set ld \<or> (d, [v, u]) \<in> set ld))"
proof (induction ld arbitrary: g)
  case Nil
  then show ?case by simp
next
  case (Cons x ld)
  obtain d ps where x: "x = (d, ps)" by (cases x)
  with Cons.prems obtain a b where ps: "ps = [a, b]" by (auto simp: length_two)
  from Cons.prems have "list_all (\<lambda>(d, ps). length ps = 2) ld" by simp
  from Cons.IH [OF this, of "add_edge g a b"] obtain g' where
    r: "add_ring_edges (add_edge g a b) ld = Inr g'"
    and e: "\<forall>u v. has_edge g' u v \<longleftrightarrow>
             has_edge (add_edge g a b) u v \<or> (\<exists>d. (d, [u, v]) \<in> set ld \<or> (d, [v, u]) \<in> set ld)"
    by blast
  from r x ps have "add_ring_edges g (x # ld) = Inr g'" by simp
  moreover from e x ps have "\<forall>u v. has_edge g' u v \<longleftrightarrow>
             has_edge g u v \<or> (\<exists>d. (d, [u, v]) \<in> set (x # ld) \<or> (d, [v, u]) \<in> set (x # ld))"
    by (auto simp: has_edge_add_edge)
  ultimately show ?case by blast
qed

lemma add_ring_edges_miscount:
  "\<not> list_all (\<lambda>(d, ps). length ps = 2) ld \<Longrightarrow> add_ring_edges g ld = Inl ValueError"
proof (induction g ld rule: add_ring_edges.induct)
  case (1 g)
  then show ?case by simp
next
  case (2 g label atom1 atom2 rest)
  then show ?case by simp
qed simp_all


lemma label_digits_entries:
  assumes "labels_readable t"
  shows "\<exists>ld. label_digits (select ''atom_label'' [] t) [] = Inr ld
           \<and> (\<forall>d ps. (d, ps) \<in> set ld \<longleftrightarrow> ps \<noteq> [] \<and> digit_atoms t d = ps)"
proof -
  let ?ms = "ring_marks_of (select ''atom_label'' [] t)"
  let ?ld = "foldl (\<lambda>ld (d, a). append_label d a ld) [] ?ms"
  from assms have run: "label_digits (select ''atom_label'' [] t) [] = Inr ?ld"
    unfolding labels_readable_def by (rule label_digits_marks)
  have "distinct (map fst []) \<and> list_all (\<lambda>(d, ps). ps \<noteq> []) ([] :: (char \<times> node_id list) list)"
    by simp
  from marks_fold [OF this, of ?ms]
  have keys: "distinct (map fst ?ld)" and full: "list_all (\<lambda>(d, ps). ps \<noteq> []) ?ld"
    and ent: "\<forall>d. entry ?ld d = digit_atoms t d"
    by (simp_all add: entry_def digit_atoms_def)
  have "\<forall>d ps. (d, ps) \<in> set ?ld \<longleftrightarrow> ps \<noteq> [] \<and> digit_atoms t d = ps"
    using entry_iff [OF keys full] ent by simp
  with run show ?thesis by blast
qed

text \<open>
  C4, as amended. On a pattern whose labels are readable: without \<^verbatim>\<open>atom_label\<close> nodes
  \<open>add_label_edges\<close> returns the graph as it is; when every ring-closure digit that
  appears appears exactly twice, it returns a graph whose edges are those it was given
  and, for every digit, one edge between the atoms of its two appearances, and no other;
  when a digit appears once or three or more times, it raises \<open>ValueError\<close> and returns
  no graph.
\<close>

theorem add_label_edges_rings:
  assumes "labels_readable t"
  shows "(select ''atom_label'' [] t = [] \<longrightarrow> add_label_edges g t = Inr g)
       \<and> ((\<forall>d. digit_atoms t d = [] \<or> length (digit_atoms t d) = 2) \<longrightarrow>
            (\<exists>g'. add_label_edges g t = Inr g'
               \<and> (\<forall>u v. has_edge g' u v \<longleftrightarrow>
                     has_edge g u v \<or> (\<exists>d. digit_atoms t d = [u, v] \<or> digit_atoms t d = [v, u]))))
       \<and> ((\<exists>d. digit_atoms t d \<noteq> [] \<and> length (digit_atoms t d) \<noteq> 2) \<longrightarrow>
            add_label_edges g t = Inl ValueError)"
proof -
  from label_digits_entries [OF assms] obtain ld where
    run: "label_digits (select ''atom_label'' [] t) [] = Inr ld"
    and ent: "\<forall>d ps. (d, ps) \<in> set ld \<longleftrightarrow> ps \<noteq> [] \<and> digit_atoms t d = ps"
    by blast
  have none: "select ''atom_label'' [] t = [] \<longrightarrow> add_label_edges g t = Inr g"
    by (simp add: add_label_edges_def)
  have empty: "digit_atoms t d = []" if "select ''atom_label'' [] t = []" for d
    using that by (simp add: digit_atoms_def ring_marks_of_def)
  have pairs: "\<exists>g'. add_label_edges g t = Inr g'
               \<and> (\<forall>u v. has_edge g' u v \<longleftrightarrow>
                     has_edge g u v \<or> (\<exists>d. digit_atoms t d = [u, v] \<or> digit_atoms t d = [v, u]))"
    if all: "\<forall>d. digit_atoms t d = [] \<or> length (digit_atoms t d) = 2"
  proof (cases "select ''atom_label'' [] t = []")
    case True
    with empty none show ?thesis by simp
  next
    case False
    from ent all have "list_all (\<lambda>(d, ps). length ps = 2) ld"
      by (auto simp: list_all_iff)
    from add_ring_edges_pairs [OF this, of g] obtain g' where
      r: "add_ring_edges g ld = Inr g'"
      and e: "\<forall>u v. has_edge g' u v \<longleftrightarrow>
             has_edge g u v \<or> (\<exists>d. (d, [u, v]) \<in> set ld \<or> (d, [v, u]) \<in> set ld)"
      by blast
    from r run False have "add_label_edges g t = Inr g'"
      by (simp add: add_label_edges_def)
    moreover from e ent have "\<forall>u v. has_edge g' u v \<longleftrightarrow>
                     has_edge g u v \<or> (\<exists>d. digit_atoms t d = [u, v] \<or> digit_atoms t d = [v, u])"
      by simp
    ultimately show ?thesis by blast
  qed
  have bad: "add_label_edges g t = Inl ValueError"
    if "\<exists>d. digit_atoms t d \<noteq> [] \<and> length (digit_atoms t d) \<noteq> 2"
  proof -
    from that obtain d where d: "digit_atoms t d \<noteq> []" "length (digit_atoms t d) \<noteq> 2"
      by blast
    with empty have labels: "select ''atom_label'' [] t \<noteq> []" by blast
    from d ent have "(d, digit_atoms t d) \<in> set ld" by simp
    with d(2) have "\<not> list_all (\<lambda>(d, ps). length ps = 2) ld"
      by (auto simp: list_all_iff)
    then have "add_ring_edges g ld = Inl ValueError" by (rule add_ring_edges_miscount)
    with run labels show ?thesis by (simp add: add_label_edges_def)
  qed
  from none pairs bad show ?thesis by blast
qed


lemmas graph_ops = add_nodes_def add_label_edges_def add_node_def add_edge_def touch_node_def
  has_node_def has_edge_def empty_graph_def

text \<open>
  A ring of three closed by the digit 1, a ring never closed, the digit 1 on three atoms,
  and the chain pattern, which has no label.
\<close>

theorem add_label_edges_rings_witness:
  "labels_readable ring_ast \<and> labels_readable open_ring_ast \<and> labels_readable triple_ring_ast
   \<and> labels_readable chain_ast
   \<and> digit_atoms ring_ast CHR ''1'' = [[0], [2]]
   \<and> (\<exists>g'. add_label_edges empty_graph ring_ast = Inr g'
          \<and> has_edge g' [0] [2] \<and> \<not> has_edge g' [0] [1])
   \<and> SMARTSGraph ring_ast = Inr ring_graph
   \<and> digit_atoms open_ring_ast CHR ''1'' = [[0]]
   \<and> add_label_edges empty_graph open_ring_ast = Inl ValueError
   \<and> digit_atoms triple_ring_ast CHR ''1'' = [[0], [1], [2]]
   \<and> add_label_edges empty_graph triple_ring_ast = Inl ValueError
   \<and> select ''atom_label'' [] chain_ast = []
   \<and> add_label_edges empty_graph chain_ast = Inr empty_graph"
proof -
  have r: "labels_readable ring_ast" by (simp add: labels_readable_def ring_ast_def)
  have o: "labels_readable open_ring_ast" by (simp add: labels_readable_def open_ring_ast_def)
  have t: "labels_readable triple_ring_ast" by (simp add: labels_readable_def triple_ring_ast_def)
  have c: "labels_readable chain_ast" by (simp add: labels_readable_def chain_ast_def)
  have rd: "digit_atoms ring_ast d = (if d = CHR ''1'' then [[0], [2]] else [])" for d
    by (auto simp add: digit_atoms_def ring_marks_of_def ring_ast_def)
  have od: "digit_atoms open_ring_ast CHR ''1'' = [[0]]"
    by (simp add: digit_atoms_def ring_marks_of_def open_ring_ast_def)
  have td: "digit_atoms triple_ring_ast CHR ''1'' = [[0], [1], [2]]"
    by (simp add: digit_atoms_def ring_marks_of_def triple_ring_ast_def)
  have cs: "select ''atom_label'' [] chain_ast = []" by (simp add: chain_ast_def)
  have built: "SMARTSGraph ring_ast = Inr ring_graph"
    by (simp add: SMARTSGraph_def ring_ast_def ring_graph_def graph_ops)
  have e: "\<not> has_edge (empty_graph :: (node_id, ast) graph) u v" for u v
    by (simp add: has_edge_def empty_graph_def)
  have all: "\<forall>d. digit_atoms ring_ast d = [] \<or> length (digit_atoms ring_ast d) = 2"
    by (simp add: rd)
  from add_label_edges_rings [OF r, of empty_graph, THEN conjunct2, THEN conjunct1, THEN mp, OF all]
  obtain g' where
    g': "add_label_edges empty_graph ring_ast = Inr g'"
    and iff: "\<forall>u v. has_edge g' u v \<longleftrightarrow> has_edge (empty_graph :: (node_id, ast) graph) u v
                \<or> (\<exists>d. digit_atoms ring_ast d = [u, v] \<or> digit_atoms ring_ast d = [v, u])"
    by (elim exE conjE)
  from rd have "digit_atoms ring_ast CHR ''1'' = [[0], [2]]" by simp
  with iff have yes: "has_edge g' [0] [2]" by blast
  from iff have no: "\<not> has_edge g' [0] [1]" by (simp add: e rd)
  from g' yes no
  have 1: "\<exists>g'. add_label_edges empty_graph ring_ast = Inr g'
          \<and> has_edge g' [0] [2] \<and> \<not> has_edge g' [0] [1]"
    by blast
  have "\<exists>d. digit_atoms open_ring_ast d \<noteq> [] \<and> length (digit_atoms open_ring_ast d) \<noteq> 2"
    by (rule exI [of _ "CHR ''1''"]) (simp add: od)
  with add_label_edges_rings [OF o, of empty_graph, THEN conjunct2, THEN conjunct2]
  have 2: "add_label_edges empty_graph open_ring_ast = Inl ValueError"
    by (rule mp)
  have "\<exists>d. digit_atoms triple_ring_ast d \<noteq> [] \<and> length (digit_atoms triple_ring_ast d) \<noteq> 2"
    by (rule exI [of _ "CHR ''1''"]) (simp add: td)
  with add_label_edges_rings [OF t, of empty_graph, THEN conjunct2, THEN conjunct2]
  have 3: "add_label_edges empty_graph triple_ring_ast = Inl ValueError"
    by (rule mp)
  from add_label_edges_rings [OF c, of empty_graph, THEN conjunct1] cs
  have 4: "add_label_edges empty_graph chain_ast = Inr empty_graph"
    by (rule mp)
  from r o t c rd od td cs built 1 2 3 4 show ?thesis by simp
qed

text \<open>
  The claim as first stated counts a digit that appears twice on the same atom among the
  errors. It is none: the two appearances are unpacked like any other two, and the atom
  is joined to itself.
\<close>

theorem add_label_edges_same_atom_counterexample:
  "digit_atoms self_ring_ast CHR ''1'' = [[0], [0]]
   \<and> add_label_edges empty_graph self_ring_ast = Inr \<lparr>nodes = [([0], None)], edges = [([0], [0])]\<rparr>
   \<and> SMARTSGraph self_ring_ast = Inr self_ring_graph"
  by (simp add: digit_atoms_def ring_marks_of_def self_ring_ast_def SMARTSGraph_def
      self_ring_graph_def graph_ops)

section \<open>Topology preparation\<close>

lemma add_cycle_whitelist:
  "add_cycle c rs s = (s', e) \<Longrightarrow> whitelist (s' r) = whitelist (s r)"
  by (induction c rs s rule: add_cycle.induct) (auto split: option.splits)

lemma add_cycles_whitelist:
  "add_cycles cs s = (s', e) \<Longrightarrow> whitelist (s' r) = whitelist (s r)"
proof (induction cs s rule: add_cycles.induct)
  case (1 s)
  then show ?case by simp
next
  case (2 cycle rest s)
  obtain s1 e1 where step: "add_cycle cycle cycle s = (s1, e1)"
    by (cases "add_cycle cycle cycle s")
  then have w: "whitelist (s1 r) = whitelist (s r)" by (rule add_cycle_whitelist)
  show ?case
  proof (cases e1)
    case None
    with 2 step w show ?thesis by simp
  next
    case (Some x)
    with "2.prems" step w show ?thesis by simp
  qed
qed

lemma init_whitelist:
  "r \<in> set rs \<Longrightarrow> whitelist (foldl (\<lambda>s r. s(r := init_atom (s r))) s rs r) = Some []"
proof (induction rs arbitrary: s rule: rev_induct)
  case Nil
  then show ?case by simp
next
  case (snoc x xs)
  then show ?case by (auto simp: init_atom_def)
qed

lemma prepare_atoms_marks:
  assumes "prepare_atoms cb topo = (topo', e)" and "atoms topo = a1 # rest"
  shows "atoms topo' = a1 # rest \<and> whitelist (store topo' a1) \<noteq> None"
proof (cases "whitelist (store topo a1) \<noteq> None")
  case True
  with assms show ?thesis by (auto simp: prepare_atoms_def)
next
  case False
  let ?s1 = "foldl (\<lambda>s r. s(r := init_atom (s r))) (store topo) (atoms topo)"
  obtain s2 err where ac: "add_cycles (cb (atoms topo) (bonds topo)) ?s1 = (s2, err)"
    by (cases "add_cycles (cb (atoms topo) (bonds topo)) ?s1")
  with assms False have t: "topo' = topo\<lparr>store := s2\<rparr>"
    by (auto simp: prepare_atoms_def Let_def)
  have "a1 \<in> set (atoms topo)" using assms(2) by simp
  then have "whitelist (?s1 a1) = Some []" by (rule init_whitelist)
  with add_cycles_whitelist [OF ac, of a1] have "whitelist (s2 a1) = Some []" by simp
  with t assms(2) show ?thesis by simp
qed

lemma prepare_atoms_again:
  assumes "prepare_atoms cb topo = (topo', e)"
  shows "prepare_atoms cb' topo' = (topo', if atoms topo = [] then Some StopIteration else None)"
proof (cases "atoms topo")
  case Nil
  with assms have "topo' = topo" by (simp add: prepare_atoms_def)
  with Nil show ?thesis by (simp add: prepare_atoms_def)
next
  case (Cons a1 rest)
  from prepare_atoms_marks [OF assms Cons] Cons show ?thesis
    by (auto simp: prepare_atoms_def)
qed

text \<open>
  C7, as amended. The marker of a prepared topology is the whitelist of the first atom
  that the atom iterator yields: when that atom carries one, \<open>prepare_atoms\<close> skips all
  work and leaves every atom as it is. After any call of \<open>prepare_atoms\<close>, a further
  call leaves the topology unchanged and, on a topology with atoms, ends without
  exception; so the answers of the \<^verbatim>\<open>ring_size\<close> and \<^verbatim>\<open>ring_count\<close> predicates are the
  same after it as before.
\<close>

theorem prepare_atoms_idempotent:
  assumes "prepare_atoms cb topo = (topo', e)"
  shows "(\<forall>a1 rest. atoms topo = a1 # rest \<and> whitelist (store topo a1) \<noteq> None
            \<longrightarrow> topo' = topo \<and> e = None)
       \<and> fst (prepare_atoms cb' topo') = topo'
       \<and> (atoms topo \<noteq> [] \<longrightarrow> prepare_atoms cb' topo' = (topo', None))
       \<and> atom_id_matches AtomicNum (Node ''ring_size'' ts) (store (fst (prepare_atoms cb' topo')) r)
           = atom_id_matches AtomicNum (Node ''ring_size'' ts) (store topo' r)
       \<and> atom_id_matches AtomicNum (Node ''ring_count'' ts) (store (fst (prepare_atoms cb' topo')) r)
           = atom_id_matches AtomicNum (Node ''ring_count'' ts) (store topo' r)"
proof -
  have first: "\<forall>a1 rest. atoms topo = a1 # rest \<and> whitelist (store topo a1) \<noteq> None
            \<longrightarrow> topo' = topo \<and> e = None"
    using assms by (auto simp: prepare_atoms_def)
  have again: "fst (prepare_atoms cb' topo') = topo'"
    using prepare_atoms_again [OF assms, of cb'] by simp
  have ok: "atoms topo \<noteq> [] \<longrightarrow> prepare_atoms cb' topo' = (topo', None)"
    using prepare_atoms_again [OF assms, of cb'] by simp
  from first again ok show ?thesis by simp
qed

text \<open>The bonded carbon and oxygen, prepared once and then again.\<close>

theorem prepare_atoms_idempotent_witness:
  "prepare_atoms no_cycles carbon_oxygen = (prepared_carbon_oxygen, None)
   \<and> prepare_atoms no_cycles prepared_carbon_oxygen = (prepared_carbon_oxygen, None)
   \<and> atom_id_matches Map.empty (Node ''ring_count'' [Tok ''0''])
        (store (fst (prepare_atoms no_cycles prepared_carbon_oxygen)) 0) = Inr (PyBool True)"
proof -
  have a: "atoms carbon_oxygen \<noteq> []" by (simp add: carbon_oxygen_def)
  have "atom_id_matches Map.empty (Node ''ring_count'' [Tok ''0'']) (store prepared_carbon_oxygen 0)
      = Inr (PyBool True)"
    by (simp add: prepared_carbon_oxygen_def init_atom_def tail0_int_def py_int_def is_digit_def)
  with prepare_atoms_idempotent [OF prepare_carbon_oxygen, of no_cycles Map.empty "[Tok ''0'']" 0]
    a prepare_carbon_oxygen
  show ?thesis by simp
qed

text \<open>
  The claim as first stated, with any atom carrying the state as the marker, fails: here
  the second atom carries a whitelist and a cycle, the first atom none, and the call
  does all its work, emptying both; the answer of \<^verbatim>\<open>ring_size\<close> on that atom changes.
\<close>

theorem prepare_atoms_any_atom_counterexample:
  "whitelist (store half_prepared 1) = Some [''opls_154'']
   \<and> cycles (store half_prepared 1) = Some [[1, 2, 3]]
   \<and> whitelist (store (fst (prepare_atoms no_cycles half_prepared)) 1) = Some []
   \<and> cycles (store (fst (prepare_atoms no_cycles half_prepared)) 1) = Some []
   \<and> atom_id_matches Map.empty (Node ''ring_size'' [Tok ''3'']) (store half_prepared 1)
       = Inr (PyBool True)
   \<and> atom_id_matches Map.empty (Node ''ring_size'' [Tok ''3''])
        (store (fst (prepare_atoms no_cycles half_prepared)) 1) = Inr (PyBool False)"
  by (simp add: half_prepared_def prepare_atoms_def no_cycles_def carbon_def oxygen_def
      init_atom_def tail0_int_def py_int_def is_digit_def)

end
